theory Spec2Isabelle
  imports Main "HOL-Library.Word"
begin

unbundle bit_operations_syntax

section \<open>WebTransport framing (server/wt\_wrapper.go)\<close>

text \<open>
  A Go byte is an 8-bit word, a \<open>uint16\<close> a 16-bit word. A byte slice is a list of bytes; its
  \<open>len\<close> is the length of the list.
\<close>

type_synonym byte = "8 word"

text \<open>
  The errors of the \<open>io\<close> package that the transport can see, and a stream failure that is
  not an end of file (a reset or a closed stream).
\<close>

datatype io_error = EOF | ErrUnexpectedEOF | StreamFailure

text \<open>
  The bidirectional stream under the transport. On the read side, \<open>rbuf\<close> holds the bytes that
  arrive before the stream ends and \<open>rend\<close> is the error it ends with (\<open>EOF\<close> on an orderly
  close). On the write side, \<open>wbuf\<close> holds the bytes written so far, in order, and \<open>wlimit\<close> is
  the number of bytes the stream still accepts before its \<open>Write\<close> fails (\<open>None\<close>: it never
  fails).
\<close>

record stream =
  rbuf :: "byte list"
  rend :: io_error
  wbuf :: "byte list"
  wlimit :: "nat option"

text \<open>
  \<open>stream.Write(p)\<close> (the \<open>io.Writer\<close> contract): it returns the number of bytes written and
  an error whenever that number is less than \<open>len(p)\<close>.
\<close>

definition stream_Write :: "stream \<Rightarrow> byte list \<Rightarrow> nat \<times> io_error option \<times> stream" where
  "stream_Write s p =
     (case wlimit s of
        None \<Rightarrow> (length p, None, s\<lparr>wbuf := wbuf s @ p\<rparr>)
      | Some k \<Rightarrow>
          if length p \<le> k
          then (length p, None, s\<lparr>wbuf := wbuf s @ p, wlimit := Some (k - length p)\<rparr>)
          else (k, Some StreamFailure, s\<lparr>wbuf := wbuf s @ take k p, wlimit := Some 0\<rparr>))"

text \<open>
  \<open>io.ReadFull(stream, buf)\<close> with \<open>len(buf) = n\<close>: it reads exactly \<open>n\<close> bytes, or fails.
  It returns the bytes it has read (their number is Go's \<open>n\<close>), the error and the stream. With
  fewer than \<open>n\<close> bytes before the end, the error is the stream's own when nothing was read,
  and \<open>ErrUnexpectedEOF\<close> in place of \<open>EOF\<close> after a partial read. A read of no bytes
  succeeds at once.
\<close>

definition ReadFull :: "stream \<Rightarrow> nat \<Rightarrow> byte list \<times> io_error option \<times> stream" where
  "ReadFull s n =
     (if n \<le> length (rbuf s) then (take n (rbuf s), None, s\<lparr>rbuf := drop n (rbuf s)\<rparr>)
      else if rbuf s = [] then ([], Some (rend s), s)
      else (rbuf s, Some (if rend s = EOF then ErrUnexpectedEOF else rend s), s\<lparr>rbuf := []\<rparr>))"

text \<open>\<open>binary.BigEndian.PutUint16\<close> and \<open>binary.BigEndian.Uint16\<close> on a 2-byte slice.\<close>

definition PutUint16 :: "16 word \<Rightarrow> byte list" where
  "PutUint16 v = [ucast (drop_bit 8 v), ucast v]"

definition Uint16 :: "byte list \<Rightarrow> 16 word" where
  "Uint16 b = (ucast (b ! 1) :: 16 word) OR push_bit 8 (ucast (b ! 0) :: 16 word)"

text \<open>The errors \<open>wtTransport.Write\<close> and \<open>wtTransport.Read\<close> return.\<close>

datatype wt_error =
    MessageTooLarge
  | HeaderWriteFailed io_error
  | PayloadWriteFailed io_error
  | ReadFailed io_error
  | ExceedsBuffer nat nat

text \<open>
  \<open>wtTransport.Write\<close>. The result is \<open>(n, err, stream)\<close>. The mutex serialises writers and
  does not appear in a sequential model.
\<close>

definition wt_Write :: "stream \<Rightarrow> byte list \<Rightarrow> nat \<times> wt_error option \<times> stream" where
  "wt_Write s p =
     (if length p > 65535 then (0, Some MessageTooLarge, s)
      else
        let header = PutUint16 (of_nat (length p)) in
        case stream_Write s header of
          (_, Some e, s1) \<Rightarrow> (0, Some (HeaderWriteFailed e), s1)
        | (_, None, s1) \<Rightarrow>
            (case stream_Write s1 p of
               (written, Some e, s2) \<Rightarrow> (written, Some (PayloadWriteFailed e), s2)
             | (written, None, s2) \<Rightarrow> (written, None, s2)))"

text \<open>
  \<open>wtTransport.Read\<close>. The caller's buffer \<open>p\<close> is passed in and returned with the bytes
  that were stored into it; the result is \<open>(n, err, p, stream)\<close>.
\<close>

definition wt_Read :: "stream \<Rightarrow> byte list \<Rightarrow> nat \<times> wt_error option \<times> byte list \<times> stream" where
  "wt_Read s p =
     (case ReadFull s 2 of
        (_, Some e, s1) \<Rightarrow> (0, Some (ReadFailed e), p, s1)
      | (header, None, s1) \<Rightarrow>
          let len = unat (Uint16 header) in
          if len > length p then (0, Some (ExceedsBuffer len (length p)), p, s1)
          else
            (case ReadFull s1 len of
               (got, err, s2) \<Rightarrow>
                 (length got, map_option ReadFailed err, got @ drop (length got) p, s2)))"

text \<open>The stream accepts \<open>n\<close> more bytes without a write failure.\<close>

definition accepts :: "stream \<Rightarrow> nat \<Rightarrow> bool" where
  "accepts s n = (case wlimit s of None \<Rightarrow> True | Some k \<Rightarrow> n \<le> k)"

section \<open>WebSocket transport (server/ws\_wrapper.go)\<close>

text \<open>
  What \<open>Conn.NextReader\<close> can deliver: a message with its type, its bytes and the error, if
  any, that reading it to the end runs into; or the failure of the connection (a close frame, a
  broken socket). The message types are those of the \<open>websocket\<close> package.
\<close>

datatype ws_error = ConnFailure nat | ExceededBufferSize

datatype ws_event =
    Msg (msgType: int) (body: "byte list") (bodyErr: "ws_error option")
  | Fail ws_error

definition TextMessage :: int where
  "TextMessage = 1"

definition BinaryMessage :: int where
  "BinaryMessage = 2"

text \<open>
  \<open>wsTransport.Read\<close>. The connection is the list of events still to come. The loop takes one
  event per iteration; when the list is used up before a text message or a failure has come,
  \<open>Read\<close> has not returned, which is the value \<open>None\<close>. A failure stays at the head of the
  list: the connection keeps reporting it. The result is \<open>(n, err, p, conn)\<close>.
\<close>

fun ws_Read :: "ws_event list \<Rightarrow> byte list \<Rightarrow> (nat \<times> ws_error option \<times> byte list \<times> ws_event list) option" where
  "ws_Read [] p = None"
| "ws_Read (Fail e # conn) p = Some (0, Some e, p, Fail e # conn)"
| "ws_Read (Msg t b berr # conn) p =
     (if t \<noteq> TextMessage then ws_Read conn p
      else
        case berr of
          Some e \<Rightarrow> Some (0, Some e, p, conn)
        | None \<Rightarrow>
            if length b > length p then Some (0, Some ExceededBufferSize, p, conn)
            else Some (length b, None, b @ drop (length b) p, conn))"

text \<open>A message that is not a text message.\<close>

fun nonText :: "ws_event \<Rightarrow> bool" where
  "nonText (Msg t b berr) = (t \<noteq> TextMessage)"
| "nonText (Fail e) = False"

section \<open>Auth-token store (server/auth\_token.go)\<close>

text \<open>
  Points in time and durations are integers (nanoseconds); \<open>now.After(t)\<close> is \<open>now > t\<close> and
  \<open>now.Add(d)\<close> is \<open>now + d\<close>. Each operation takes the value of \<open>time.Now()\<close> as \<open>now\<close>.
\<close>

definition authTokenLength :: nat where
  "authTokenLength = 32"

definition authTokenTTL :: int where
  "authTokenTTL = 3600 * 1000000000"

record authTokenInfo =
  expiresAt :: int
  ip :: string

record authTokenStore =
  tokens :: "string \<rightharpoonup> authTokenInfo"
  ttl :: int

definition newAuthTokenStore :: "int \<Rightarrow> authTokenStore" where
  "newAuthTokenStore d = \<lparr>tokens = Map.empty, ttl = d\<rparr>"

text \<open>\<open>pruneLocked\<close>: every entry with \<open>now.After(info.expiresAt)\<close> is deleted.\<close>

definition pruneLocked :: "authTokenStore \<Rightarrow> int \<Rightarrow> authTokenStore" where
  "pruneLocked store now =
     store\<lparr>tokens := (\<lambda>token.
        case tokens store token of
          None \<Rightarrow> None
        | Some info \<Rightarrow> if now > expiresAt info then None else Some info)\<rparr>"

text \<open>
  Modelled from the spec: \<open>randomstring.Generate\<close> (package \<open>pkg/randomstring\<close>) is not among
  the sources. The spec says of the tokens it makes: ``Tokens are 32 printable ASCII
  characters''. A string \<open>d\<close> that \<open>Generate(n)\<close> may return has \<open>n\<close> characters, all
  printable ASCII.
\<close>

definition Generate_returns :: "nat \<Rightarrow> string \<Rightarrow> bool" where
  "Generate_returns n d =
     (length d = n \<and> list_all (\<lambda>c. (32 :: nat) \<le> of_char c \<and> of_char c \<le> (126 :: nat)) d)"

text \<open>
  The loop of \<open>issue\<close>. The successive results of \<open>randomstring.Generate(authTokenLength)\<close>
  are the list \<open>draws\<close>; a draw that is already a key of the map is dropped and the next one is
  taken. When every draw collides the loop has not returned: \<open>None\<close>. Otherwise the result is
  the token, the map with the new entry, and the draws that were not used.
\<close>

fun issue_loop
  :: "(string \<rightharpoonup> authTokenInfo) \<Rightarrow> authTokenInfo \<Rightarrow> string list
      \<Rightarrow> (string \<times> (string \<rightharpoonup> authTokenInfo) \<times> string list) option" where
  "issue_loop m info [] = None"
| "issue_loop m info (token # draws) =
     (if m token \<noteq> None then issue_loop m info draws
      else Some (token, m(token \<mapsto> info), draws))"

text \<open>\<open>authTokenStore.issue\<close>; the result is the token, the store and the unused draws.\<close>

definition issue
  :: "authTokenStore \<Rightarrow> int \<Rightarrow> string list \<Rightarrow> string
      \<Rightarrow> (string \<times> authTokenStore \<times> string list) option" where
  "issue store now draws addr =
     (let store1 = pruneLocked store now in
      case issue_loop (tokens store1) \<lparr>expiresAt = now + ttl store1, ip = addr\<rparr> draws of
        None \<Rightarrow> None
      | Some (token, m, rest) \<Rightarrow> Some (token, store1\<lparr>tokens := m\<rparr>, rest))"

text \<open>\<open>authTokenStore.validate\<close>; the result is the answer and the store.\<close>

definition validate :: "authTokenStore \<Rightarrow> int \<Rightarrow> string \<Rightarrow> string \<Rightarrow> bool \<times> authTokenStore" where
  "validate store now token addr =
     (if token = [] then (False, store)
      else
        let store1 = pruneLocked store now in
        case tokens store1 token of
          None \<Rightarrow> (False, store1)
        | Some info \<Rightarrow>
            if now > expiresAt info
            then (False, store1\<lparr>tokens := (tokens store1)(token := None)\<rparr>)
            else if ip info \<noteq> [] \<and> addr \<noteq> [] \<and> ip info \<noteq> addr then (False, store1)
            else (True, store1))"

text \<open>
  The options, as far as the code modelled here reads them, and the server, as far as the token
  functions read it: the options and the pointer to the store (\<open>None\<close> is \<open>nil\<close>).
\<close>

record Options =
  Address :: string
  Port :: string
  EnableBasicAuth :: bool
  AuthIPBinding :: bool
  WSOrigin :: string

record Server =
  options :: Options
  authTokens :: "authTokenStore option"

text \<open>\<open>Server.validateAuthToken\<close>; the result is the answer and the server.\<close>

definition validateAuthToken :: "Server \<Rightarrow> int \<Rightarrow> string \<Rightarrow> string \<Rightarrow> bool \<times> Server" where
  "validateAuthToken server now token addr =
     (if \<not> EnableBasicAuth (options server) then (True, server)
      else
        case authTokens server of
          None \<Rightarrow> (False, server)
        | Some store \<Rightarrow>
            let (ok, store1) =
              (if \<not> AuthIPBinding (options server) then validate store now token []
               else validate store now token addr)
            in (ok, server\<lparr>authTokens := Some store1\<rparr>))"

section \<open>Library functions of Go used by the request handling\<close>

text \<open>
  A Go string is a sequence of bytes: a \<open>string\<close> here, one \<open>char\<close> per byte. The functions
  of this section are those of Go's standard library that the code calls, written from their
  documented behaviour.
\<close>

text \<open>\<open>strings.IndexByte\<close> and \<open>strings.LastIndexByte\<close>; \<open>None\<close> is the result \<open>-1\<close>.\<close>

definition IndexByte :: "string \<Rightarrow> char \<Rightarrow> nat option" where
  "IndexByte s c =
     (if c \<in> set s then Some (length (takeWhile (\<lambda>x. x \<noteq> c) s)) else None)"

definition LastIndexByte :: "string \<Rightarrow> char \<Rightarrow> nat option" where
  "LastIndexByte s c =
     (if c \<in> set s then Some (length s - 1 - length (takeWhile (\<lambda>x. x \<noteq> c) (rev s)))
      else None)"

text \<open>
  \<open>strings.Split(s, sep)\<close> for a separator of one byte: the pieces of \<open>s\<close> between the
  separators, at least one piece.
\<close>

fun Split :: "string \<Rightarrow> char \<Rightarrow> string list" where
  "Split [] sep = [[]]"
| "Split (c # s) sep =
     (if c = sep then [] # Split s sep
      else (c # hd (Split s sep)) # tl (Split s sep))"

text \<open>
  \<open>strings.TrimSpace\<close>: leading and trailing white space, as defined by Unicode, is removed.
  The white-space characters are the six of ASCII and, in UTF-8, U+0085, U+00A0, U+1680,
  U+2000 to U+200A, U+2028, U+2029, U+202F, U+205F and U+3000.
\<close>

definition asciiSpace :: "char \<Rightarrow> bool" where
  "asciiSpace c = (c \<in> set [CHR 0x09, CHR 0x0A, CHR 0x0B, CHR 0x0C, CHR 0x0D, CHR 0x20])"

definition unicodeSpaces :: "string list" where
  "unicodeSpaces =
     [[CHR 0xC2, CHR 0x85], [CHR 0xC2, CHR 0xA0], [CHR 0xE1, CHR 0x9A, CHR 0x80],
      [CHR 0xE2, CHR 0x80, CHR 0x80], [CHR 0xE2, CHR 0x80, CHR 0x81],
      [CHR 0xE2, CHR 0x80, CHR 0x82], [CHR 0xE2, CHR 0x80, CHR 0x83],
      [CHR 0xE2, CHR 0x80, CHR 0x84], [CHR 0xE2, CHR 0x80, CHR 0x85],
      [CHR 0xE2, CHR 0x80, CHR 0x86], [CHR 0xE2, CHR 0x80, CHR 0x87],
      [CHR 0xE2, CHR 0x80, CHR 0x88], [CHR 0xE2, CHR 0x80, CHR 0x89],
      [CHR 0xE2, CHR 0x80, CHR 0x8A], [CHR 0xE2, CHR 0x80, CHR 0xA8],
      [CHR 0xE2, CHR 0x80, CHR 0xA9], [CHR 0xE2, CHR 0x80, CHR 0xAF],
      [CHR 0xE2, CHR 0x81, CHR 0x9F], [CHR 0xE3, CHR 0x80, CHR 0x80]]"

text \<open>The number of bytes of the white-space character that \<open>s\<close> starts with, or 0.\<close>

definition leadingSpace :: "string \<Rightarrow> nat" where
  "leadingSpace s =
     (if s \<noteq> [] \<and> asciiSpace (hd s) then 1
      else if 2 \<le> length s \<and> take 2 s \<in> set unicodeSpaces then 2
      else if 3 \<le> length s \<and> take 3 s \<in> set unicodeSpaces then 3
      else 0)"

text \<open>The number of bytes of the white-space character that \<open>s\<close> ends with, or 0.\<close>

definition trailingSpace :: "string \<Rightarrow> nat" where
  "trailingSpace s =
     (if s \<noteq> [] \<and> asciiSpace (last s) then 1
      else if 2 \<le> length s \<and> drop (length s - 2) s \<in> set unicodeSpaces then 2
      else if 3 \<le> length s \<and> drop (length s - 3) s \<in> set unicodeSpaces then 3
      else 0)"

function TrimLeft :: "string \<Rightarrow> string" where
  "TrimLeft s = (if leadingSpace s = 0 then s else TrimLeft (drop (leadingSpace s) s))"
  by pat_completeness auto
termination
  by (relation "measure length") (auto simp add: leadingSpace_def split: if_splits)

function TrimRight :: "string \<Rightarrow> string" where
  "TrimRight s =
     (if trailingSpace s = 0 then s else TrimRight (take (length s - trailingSpace s) s))"
  by pat_completeness auto
termination
  by (relation "measure length") (auto simp add: trailingSpace_def split: if_splits)

definition TrimSpace :: "string \<Rightarrow> string" where
  "TrimSpace s = TrimRight (TrimLeft s)"

text \<open>
  \<open>net.SplitHostPort\<close>: \<open>host:port\<close>, \<open>[host]:port\<close> with the brackets removed; \<open>None\<close> is
  an error (no port, too many colons, a bracket out of place).
\<close>

definition SplitHostPort :: "string \<Rightarrow> (string \<times> string) option" where
  "SplitHostPort hostport =
     (case LastIndexByte hostport CHR '':'' of
        None \<Rightarrow> None
      | Some i \<Rightarrow>
          if hostport ! 0 = CHR ''[''
          then
            (case IndexByte hostport CHR '']'' of
               None \<Rightarrow> None
             | Some e \<Rightarrow>
                 if e + 1 = length hostport then None
                 else if e + 1 = i then
                   (if CHR ''['' \<in> set (drop 1 hostport) then None
                    else if CHR '']'' \<in> set (drop (e + 1) hostport) then None
                    else Some (take (e - 1) (drop 1 hostport), drop (i + 1) hostport))
                 else None)
          else
            (if CHR '':'' \<in> set (take i hostport) then None
             else if CHR ''['' \<in> set hostport then None
             else if CHR '']'' \<in> set hostport then None
             else Some (take i hostport, drop (i + 1) hostport)))"

text \<open>
  A parsed URL, as far as the code reads it, with its methods \<open>Hostname\<close> and \<open>Port\<close> (package
  \<open>net/url\<close>): the port is what follows the last colon of the host when it is all digits, and
  the brackets of an IPv6 literal are removed.
\<close>

record URL =
  Scheme :: string
  URLHost :: string

definition validOptionalPort :: "string \<Rightarrow> bool" where
  "validOptionalPort port =
     (port = [] \<or>
      (hd port = CHR '':'' \<and>
       list_all (\<lambda>b. (48 :: nat) \<le> of_char b \<and> of_char b \<le> (57 :: nat)) (tl port)))"

definition url_splitHostPort :: "string \<Rightarrow> string \<times> string" where
  "url_splitHostPort hostPort =
     (let (host, port) =
        (case LastIndexByte hostPort CHR '':'' of
           None \<Rightarrow> (hostPort, [])
         | Some colon \<Rightarrow>
             if validOptionalPort (drop colon hostPort)
             then (take colon hostPort, drop (colon + 1) hostPort)
             else (hostPort, []))
      in if host \<noteq> [] \<and> hd host = CHR ''['' \<and> last host = CHR '']''
         then (take (length host - 2) (drop 1 host), port)
         else (host, port))"

definition URL_Hostname :: "URL \<Rightarrow> string" where
  "URL_Hostname u = fst (url_splitHostPort (URLHost u))"

definition URL_Port :: "URL \<Rightarrow> string" where
  "URL_Port u = snd (url_splitHostPort (URLHost u))"

section \<open>Requests: client IP and origin (server/auth\_token.go, sameOrigin)\<close>

text \<open>
  An \<open>http.Request\<close>, as far as the code reads it. \<open>Header\<close> maps a canonical header name to
  its values; \<open>TLS\<close> tells whether the request came over TLS (an \<open>https\<close> request).
\<close>

record Request =
  Header :: "string \<rightharpoonup> string list"
  Host :: string
  RemoteAddr :: string
  TLS :: bool

text \<open>\<open>Header.Get\<close>: the first value of the header, the empty string when there is none.\<close>

definition Header_Get :: "(string \<rightharpoonup> string list) \<Rightarrow> string \<Rightarrow> string" where
  "Header_Get h key = (case h key of None \<Rightarrow> [] | Some [] \<Rightarrow> [] | Some (v # vs) \<Rightarrow> v)"

definition ipFromAddr :: "string \<Rightarrow> string" where
  "ipFromAddr addr =
     (if addr = [] then []
      else
        case SplitHostPort addr of
          Some (host, port) \<Rightarrow> host
        | None \<Rightarrow> TrimSpace addr)"

text \<open>
  \<open>clientIPFromRequest\<close>; \<open>None\<close> is the \<open>nil\<close> request. \<open>strings.Split\<close> returns at least
  one piece, so the index 0 is in range.
\<close>

definition clientIPFromRequest :: "Request option \<Rightarrow> string" where
  "clientIPFromRequest r =
     (case r of
        None \<Rightarrow> []
      | Some req \<Rightarrow>
          let forwarded = Header_Get (Header req) ''X-Forwarded-For'' in
          if forwarded \<noteq> [] then TrimSpace (hd (Split forwarded CHR '',''))
          else ipFromAddr (RemoteAddr req))"

text \<open>
  \<open>sameOrigin\<close>. Two functions of the library are parameters, so that what is proved holds for
  them whatever they do: \<open>url.Parse\<close> is \<open>parse\<close> (\<open>None\<close> is an error), and
  \<open>strings.EqualFold\<close>, the equality of two strings under Unicode case folding, is
  \<open>equalFold\<close>.
\<close>

definition sameOrigin
  :: "(string \<Rightarrow> URL option) \<Rightarrow> (string \<Rightarrow> string \<Rightarrow> bool) \<Rightarrow> Request \<Rightarrow> bool" where
  "sameOrigin parse equalFold r =
     (let origin = Header_Get (Header r) ''Origin'' in
      if origin = [] then True
      else
        case parse origin of
          None \<Rightarrow> False
        | Some originURL \<Rightarrow>
            let originHost = URL_Hostname originURL;
                originPort = URL_Port originURL;
                (reqHost, reqPort) =
                  (case SplitHostPort (Host r) of
                     Some (host, port) \<Rightarrow> (host, port)
                   | None \<Rightarrow> (Host r, []))
            in if \<not> equalFold originHost reqHost then False
               else if originPort = [] \<or> reqPort = [] then True
               else originPort = reqPort)"

section \<open>WebTransport server (server/wt\_server.go)\<close>

text \<open>
  A compiled regular expression is the predicate of its \<open>MatchString\<close>; \<open>regexp.Compile\<close> is
  the parameter \<open>compile\<close> (\<open>None\<close> is an error). The server keeps its address, the options,
  the path prefix and the compiled origin pattern (\<open>None\<close> is \<open>nil\<close>).
\<close>

record WebTransportServer =
  wts_addr :: string
  wts_options :: Options
  wts_pathPrefix :: string
  wts_originRegexp :: "(string \<Rightarrow> bool) option"

text \<open>The \<open>CheckOrigin\<close> function that \<open>NewWebTransportServer\<close> installs.\<close>

definition CheckOrigin :: "(string \<Rightarrow> bool) option \<Rightarrow> Request \<Rightarrow> bool" where
  "CheckOrigin originRegexp r =
     (case originRegexp of
        Some re \<Rightarrow> re (Header_Get (Header r) ''Origin'')
      | None \<Rightarrow> True)"

definition NewWebTransportServer
  :: "(string \<Rightarrow> (string \<Rightarrow> bool) option) \<Rightarrow> Options \<Rightarrow> string \<Rightarrow> WebTransportServer option" where
  "NewWebTransportServer compile opts prefix =
     (let mk = (\<lambda>re. \<lparr>wts_addr = Address opts @ '':'' @ Port opts, wts_options = opts,
                     wts_pathPrefix = prefix, wts_originRegexp = re\<rparr>)
      in if WSOrigin opts \<noteq> []
         then (case compile (WSOrigin opts) of
                 None \<Rightarrow> None
               | Some re \<Rightarrow> Some (mk (Some re)))
         else Some (mk None))"

section \<open>Properties of the WebTransport framing\<close>

lemma Uint16_PutUint16: "Uint16 (PutUint16 v) = v"
  unfolding Uint16_def PutUint16_def
  by (simp add: bit_eq_iff bit_simps) (auto simp: not_le)

lemma unat_len16: "n \<le> 65535 \<Longrightarrow> unat (of_nat n :: 16 word) = n"
  by (simp add: unat_of_nat)

lemma PutUint16_hi:
  assumes "n \<le> 65535"
  shows "(ucast (drop_bit 8 (of_nat n :: 16 word)) :: byte) = of_nat (n div 256)"
proof -
  have d: "n div 256 = drop_bit 8 n" by (simp add: drop_bit_eq_div)
  have "n < 2 ^ 16" using assms by simp
  then have hb: "\<And>k. bit n k \<Longrightarrow> k < 16"
    by (metis bit_take_bit_iff take_bit_nat_eq_self)
  show ?thesis unfolding d
    by (rule bit_word_eqI) (auto simp add: bit_simps dest: hb)
qed

lemma PutUint16_lo: "(ucast (of_nat n :: 16 word) :: byte) = of_nat (n mod 256)"
proof -
  have d: "n mod 256 = take_bit 8 n" by (simp add: take_bit_eq_mod)
  show ?thesis unfolding d
    by (rule bit_word_eqI) (auto simp add: bit_simps)
qed

lemma PutUint16_of_nat:
  "n \<le> 65535 \<Longrightarrow> PutUint16 (of_nat n) = [of_nat (n div 256), of_nat (n mod 256)]"
  by (simp add: PutUint16_def PutUint16_hi PutUint16_lo)

lemma byte_bound: "unat (h :: byte) < 256"
  using unsigned_less [of h, where 'a = nat] by simp

lemma unat_Uint16: "unat (Uint16 [h1, h2]) = 256 * unat h1 + unat h2"
proof -
  let ?n = "256 * unat h1 + unat h2"
  have b: "?n \<le> 65535" using byte_bound [of h1] byte_bound [of h2] by simp
  have "?n div 256 = unat h1" "?n mod 256 = unat h2"
    using byte_bound [of h2] by simp_all
  then have "PutUint16 (of_nat ?n) = [h1, h2]"
    using PutUint16_of_nat [OF b] by simp
  then have "Uint16 [h1, h2] = of_nat ?n"
    using Uint16_PutUint16 [of "of_nat ?n"] by simp
  then show ?thesis using unat_len16 [OF b] by simp
qed

lemma stream_Write_ok:
  "accepts s (length p) \<Longrightarrow>
   stream_Write s p = (length p, None,
     s\<lparr>wbuf := wbuf s @ p, wlimit := map_option (\<lambda>k. k - length p) (wlimit s)\<rparr>)"
  by (cases "wlimit s") (simp_all add: stream_Write_def accepts_def)

lemma wt_Write_ok:
  assumes "length p \<le> 65535"
    and "stream_Write s (PutUint16 (of_nat (length p))) = (n1, None, s1)"
    and "stream_Write s1 p = (n2, None, s2)"
  shows "wt_Write s p = (n2, None, s2)"
  using assms by (simp add: wt_Write_def)

lemma wt_Write_accepted:
  assumes "length P \<le> 65535" and "accepts s (2 + length P)"
  shows "wt_Write s P = (length P, None,
    s\<lparr>wbuf := wbuf s @ PutUint16 (of_nat (length P)) @ P,
      wlimit := map_option (\<lambda>k. k - (2 + length P)) (wlimit s)\<rparr>)"
proof -
  let ?hdr = "PutUint16 (of_nat (length P))"
  let ?s1 = "s\<lparr>wbuf := wbuf s @ ?hdr, wlimit := map_option (\<lambda>k. k - length ?hdr) (wlimit s)\<rparr>"
  let ?s2 = "?s1\<lparr>wbuf := wbuf ?s1 @ P, wlimit := map_option (\<lambda>k. k - length P) (wlimit ?s1)\<rparr>"
  have l: "length ?hdr = 2" by (simp add: PutUint16_def)
  have a1: "accepts s (length ?hdr)"
    using assms(2) by (simp add: l accepts_def split: option.splits)
  have a2: "accepts ?s1 (length P)"
    using assms(2) by (simp add: l accepts_def split: option.splits)
  have w1: "stream_Write s ?hdr = (length ?hdr, None, ?s1)"
    using a1 by (rule stream_Write_ok)
  have w2: "stream_Write ?s1 P = (length P, None, ?s2)"
    using a2 by (rule stream_Write_ok)
  have "wt_Write s P = (length P, None, ?s2)"
    using assms(1) w1 w2 by (rule wt_Write_ok)
  moreover have "?s2 = s\<lparr>wbuf := wbuf s @ ?hdr @ P,
      wlimit := map_option (\<lambda>k. k - (2 + length P)) (wlimit s)\<rparr>"
    by (cases "wlimit s") (simp_all add: l)
  ultimately show ?thesis by simp
qed

lemma wt_Read_framed:
  assumes "length P \<le> 65535" and "length P \<le> length buf"
  shows "wt_Read (r\<lparr>rbuf := PutUint16 (of_nat (length P)) @ P @ rest\<rparr>) buf
      = (length P, None, P @ drop (length P) buf, r\<lparr>rbuf := rest\<rparr>)"
proof -
  let ?hdr = "PutUint16 (of_nat (length P))"
  have l: "length ?hdr = 2" by (simp add: PutUint16_def)
  have len: "unat (Uint16 ?hdr) = length P"
    using unat_len16 [OF assms(1)] by (simp add: Uint16_PutUint16)
  have r1: "ReadFull (r\<lparr>rbuf := ?hdr @ P @ rest\<rparr>) 2 = (?hdr, None, r\<lparr>rbuf := P @ rest\<rparr>)"
    by (simp add: ReadFull_def l)
  have r2: "ReadFull (r\<lparr>rbuf := P @ rest\<rparr>) (length P) = (P, None, r\<lparr>rbuf := rest\<rparr>)"
    by (simp add: ReadFull_def)
  show ?thesis
    using assms(2) by (simp add: wt_Read_def r1 len r2)
qed

text \<open>
  Claim C1 (framing round trip). For a payload \<open>P\<close> of at most 65535 bytes, written to a
  stream that accepts the frame, \<open>wtTransport.Write\<close> returns \<open>len(P)\<close> and no error and
  appends to the stream the two bytes of \<open>len(P)\<close>, most significant first, followed by \<open>P\<close>.
  A \<open>wtTransport.Read\<close> that receives the bytes this \<open>Write\<close> emitted, into a buffer of at
  least \<open>len(P)\<close> bytes, returns \<open>len(P)\<close> and no error, stores exactly \<open>P\<close> at the front
  of the buffer and leaves whatever followed the frame on the stream.
\<close>

theorem wt_Write_Read_roundtrip:
  assumes "length P \<le> 65535" and "length P \<le> length buf" and "accepts s (2 + length P)"
  shows "fst (wt_Write s P) = length P \<and> fst (snd (wt_Write s P)) = None
       \<and> wbuf (snd (snd (wt_Write s P)))
           = wbuf s @ [of_nat (length P div 256), of_nat (length P mod 256)] @ P
       \<and> wt_Read (r\<lparr>rbuf := drop (length (wbuf s)) (wbuf (snd (snd (wt_Write s P)))) @ rest\<rparr>) buf
           = (length P, None, P @ drop (length P) buf, r\<lparr>rbuf := rest\<rparr>)"
proof -
  note W = wt_Write_accepted [OF assms(1,3)]
  have R: "wt_Read (r\<lparr>rbuf := (PutUint16 (of_nat (length P)) @ P) @ rest\<rparr>) buf
      = (length P, None, P @ drop (length P) buf, r\<lparr>rbuf := rest\<rparr>)"
    using wt_Read_framed [OF assms(1,2)] by simp
  have H: "PutUint16 (of_nat (length P)) @ P
      = [of_nat (length P div 256), of_nat (length P mod 256)] @ P"
    using PutUint16_of_nat [OF assms(1)] by simp
  show ?thesis
    unfolding W using R H by simp
qed

theorem wt_Write_Read_roundtrip_witness:
  "length [1, 2, 3 :: byte] \<le> 65535 \<and> length [1, 2, 3 :: byte] \<le> length [0, 0, 0, 0 :: byte]
   \<and> accepts \<lparr>rbuf = [], rend = EOF, wbuf = [7], wlimit = Some 5\<rparr> (2 + length [1, 2, 3 :: byte])
   \<and> wbuf (snd (snd (wt_Write \<lparr>rbuf = [], rend = EOF, wbuf = [7], wlimit = Some 5\<rparr> [1, 2, 3])))
       = [7, 0, 3, 1, 2, 3]
   \<and> wt_Read (\<lparr>rbuf = [], rend = EOF, wbuf = [], wlimit = None\<rparr>
        \<lparr>rbuf := drop (length [7 :: byte])
           (wbuf (snd (snd (wt_Write \<lparr>rbuf = [], rend = EOF, wbuf = [7], wlimit = Some 5\<rparr> [1, 2, 3])))) @ [9]\<rparr>)
        [0, 0, 0, 0]
       = (3, None, [1, 2, 3, 0], \<lparr>rbuf = [9], rend = EOF, wbuf = [], wlimit = None\<rparr>)"
  using wt_Write_Read_roundtrip [where P = "[1, 2, 3]" and buf = "[0, 0, 0, 0]"
      and s = "\<lparr>rbuf = [], rend = EOF, wbuf = [7], wlimit = Some 5\<rparr>"
      and r = "\<lparr>rbuf = [], rend = EOF, wbuf = [], wlimit = None\<rparr>" and rest = "[9]"]
  by (simp add: accepts_def wt_Write_def wt_Read_def stream_Write_def ReadFull_def
      PutUint16_def Uint16_def)

text \<open>
  Claim C4 (oversized payload). For a payload of more than 65535 bytes, \<open>wtTransport.Write\<close>
  returns 0 and the message-too-large error, and the stream it returns is the stream it was given:
  neither header nor payload has been written.
\<close>

theorem wt_Write_too_large:
  "length P > 65535 \<Longrightarrow> wt_Write s P = (0, Some MessageTooLarge, s)"
  by (simp add: wt_Write_def)

theorem wt_Write_too_large_witness:
  "length (replicate 65536 (0 :: byte)) > 65535
   \<and> wt_Write \<lparr>rbuf = [], rend = EOF, wbuf = [7], wlimit = None\<rparr> (replicate 65536 0)
       = (0, Some MessageTooLarge, \<lparr>rbuf = [], rend = EOF, wbuf = [7], wlimit = None\<rparr>)"
  using wt_Write_too_large [where P = "replicate 65536 0"
      and s = "\<lparr>rbuf = [], rend = EOF, wbuf = [7], wlimit = None\<rparr>"]
  by simp

text \<open>
  Claim C5 (strict reads). On a stream whose next bytes are a header \<open>h1 h2\<close>, let \<open>N\<close> be its
  big-endian value \<open>256 * h1 + h2\<close>. When \<open>N\<close> fits the caller's buffer and the \<open>N\<close> payload
  bytes are there, \<open>wtTransport.Read\<close> consumes the two header bytes and exactly the next \<open>N\<close>
  bytes, stores these at the front of the buffer and returns \<open>N\<close> and no error. When \<open>N\<close>
  exceeds the buffer size, it returns 0 and an error that carries both sizes, the buffer is
  unchanged, and only the header has been consumed. It never returns without error having read
  a number of payload bytes other than \<open>N\<close>.
\<close>

theorem wt_Read_frame:
  assumes "rbuf s = h1 # h2 # rest" and "N = 256 * unat h1 + unat h2"
  shows "(N \<le> length p \<and> N \<le> length rest \<longrightarrow>
            wt_Read s p = (N, None, take N rest @ drop N p, s\<lparr>rbuf := drop N rest\<rparr>))
       \<and> (N > length p \<longrightarrow>
            wt_Read s p = (0, Some (ExceedsBuffer N (length p)), p, s\<lparr>rbuf := rest\<rparr>))
       \<and> (fst (snd (wt_Read s p)) = None \<longrightarrow> fst (wt_Read s p) = N)"
proof -
  have h: "ReadFull s 2 = ([h1, h2], None, s\<lparr>rbuf := rest\<rparr>)"
    using assms(1) by (simp add: ReadFull_def)
  have n: "unat (Uint16 [h1, h2]) = N"
    using assms(2) by (simp add: unat_Uint16)
  have big: "wt_Read s p = (0, Some (ExceedsBuffer N (length p)), p, s\<lparr>rbuf := rest\<rparr>)"
    if "N > length p"
    using that by (simp add: wt_Read_def h n)
  have small: "wt_Read s p =
      (case ReadFull (s\<lparr>rbuf := rest\<rparr>) N of
         (got, err, s2) \<Rightarrow> (length got, map_option ReadFailed err, got @ drop (length got) p, s2))"
    if "N \<le> length p"
    using that by (simp add: wt_Read_def h n)
  have full: "ReadFull (s\<lparr>rbuf := rest\<rparr>) N = (take N rest, None, s\<lparr>rbuf := drop N rest\<rparr>)"
    if "N \<le> length rest"
    using that by (simp add: ReadFull_def)
  have short: "fst (snd (ReadFull (s\<lparr>rbuf := rest\<rparr>) N)) \<noteq> None"
    if "\<not> N \<le> length rest"
    using that by (simp add: ReadFull_def)
  have c1: "wt_Read s p = (N, None, take N rest @ drop N p, s\<lparr>rbuf := drop N rest\<rparr>)"
    if "N \<le> length p" "N \<le> length rest"
    using that by (simp add: small full)
  have c3: "fst (wt_Read s p) = N" if e: "fst (snd (wt_Read s p)) = None"
  proof (cases "N \<le> length p")
    case False
    then show ?thesis using e big by simp
  next
    case True
    show ?thesis
    proof (cases "N \<le> length rest")
      case True
      then show ?thesis using c1 \<open>N \<le> length p\<close> by simp
    next
      case False
      then show ?thesis using e short [OF False] small [OF True]
        by (simp add: case_prod_beta)
    qed
  qed
  show ?thesis using big c1 c3 by blast
qed

theorem wt_Read_frame_witness:
  "wt_Read \<lparr>rbuf = [0, 2, 5, 6, 7], rend = EOF, wbuf = [], wlimit = None\<rparr> [1, 1, 1]
     = (2, None, [5, 6, 1], \<lparr>rbuf = [7], rend = EOF, wbuf = [], wlimit = None\<rparr>)
   \<and> wt_Read \<lparr>rbuf = [0, 2, 5, 6, 7], rend = EOF, wbuf = [], wlimit = None\<rparr> [1]
     = (0, Some (ExceedsBuffer 2 1), [1], \<lparr>rbuf = [5, 6, 7], rend = EOF, wbuf = [], wlimit = None\<rparr>)"
  using wt_Read_frame [where s = "\<lparr>rbuf = [0, 2, 5, 6, 7], rend = EOF, wbuf = [], wlimit = None\<rparr>"
      and ?h1.0 = 0 and ?h2.0 = 2 and rest = "[5, 6, 7]" and N = 2 and p = "[1, 1, 1]"]
    wt_Read_frame [where s = "\<lparr>rbuf = [0, 2, 5, 6, 7], rend = EOF, wbuf = [], wlimit = None\<rparr>"
      and ?h1.0 = 0 and ?h2.0 = 2 and rest = "[5, 6, 7]" and N = 2 and p = "[1]"]
  by simp

section \<open>Properties of the WebSocket transport\<close>

lemma ws_Read_skip: "list_all nonText skipped \<Longrightarrow> ws_Read (skipped @ conn) p = ws_Read conn p"
proof (induction skipped)
  case Nil
  then show ?case by simp
next
  case (Cons ev skipped)
  then show ?case by (cases ev) simp_all
qed

lemma ws_Read_text_source:
  "ws_Read conn p = Some (n, None, p', conn') \<Longrightarrow>
   \<exists>b. Msg TextMessage b None \<in> set conn \<and> n = length b \<and> take n p' = b \<and> length b \<le> length p
     \<and> p' = b @ drop n p"
proof (induction conn p rule: ws_Read.induct)
  case (1 p)
  then show ?case by simp
next
  case (2 e conn p)
  then show ?case by simp
next
  case (3 t b berr conn p)
  show ?case
  proof (cases "t = TextMessage")
    case False
    then show ?thesis using 3 by auto
  next
    case True
    then show ?thesis using "3.prems" by (auto split: option.splits if_splits)
  qed
qed

lemma ws_Read_returns_iff:
  "(ws_Read conn p \<noteq> None) = (\<exists>ev \<in> set conn. \<not> nonText ev)"
proof (induction conn p rule: ws_Read.induct)
  case (3 t b berr conn p)
  then show ?case by (auto split: option.splits)
qed simp_all

text \<open>
  Claim C6 (only text messages surface). Messages that are not text messages, in front of
  whatever comes next, change nothing in what \<open>wsTransport.Read\<close> returns: it behaves as if
  they had not been sent, so none of their bytes reaches the caller. After any number of them, a
  text message that fits the buffer is returned whole. Whenever \<open>Read\<close> returns without
  error, what it stored is the content of a text message of the connection. \<open>Read\<close> returns
  exactly when a text message or a failure is among the events to come: until then it keeps
  consuming.
\<close>

theorem ws_Read_only_text:
  "(list_all nonText skipped \<longrightarrow> ws_Read (skipped @ conn) p = ws_Read conn p)
   \<and> (list_all nonText skipped \<and> length b \<le> length p \<longrightarrow>
        ws_Read (skipped @ Msg TextMessage b None # conn) p
          = Some (length b, None, b @ drop (length b) p, conn))
   \<and> (ws_Read conn p = Some (n, None, p', conn') \<longrightarrow>
        (\<exists>b'. Msg TextMessage b' None \<in> set conn \<and> n = length b' \<and> p' = b' @ drop n p))
   \<and> ((ws_Read conn p \<noteq> None) = (\<exists>ev \<in> set conn. \<not> nonText ev))"
proof (intro conjI impI)
  assume "list_all nonText skipped"
  then show "ws_Read (skipped @ conn) p = ws_Read conn p"
    by (rule ws_Read_skip)
next
  assume "list_all nonText skipped \<and> length b \<le> length p"
  then show "ws_Read (skipped @ Msg TextMessage b None # conn) p
      = Some (length b, None, b @ drop (length b) p, conn)"
    by (simp add: ws_Read_skip)
next
  assume "ws_Read conn p = Some (n, None, p', conn')"
  then show "\<exists>b'. Msg TextMessage b' None \<in> set conn \<and> n = length b' \<and> p' = b' @ drop n p"
    using ws_Read_text_source by blast
next
  show "(ws_Read conn p \<noteq> None) = (\<exists>ev \<in> set conn. \<not> nonText ev)"
    by (rule ws_Read_returns_iff)
qed

theorem ws_Read_only_text_witness:
  "list_all nonText [Msg BinaryMessage [8, 9] None, Msg BinaryMessage [7] None]
   \<and> length [3, 4 :: byte] \<le> length [0, 0, 0 :: byte]
   \<and> ws_Read ([Msg BinaryMessage [8, 9] None, Msg BinaryMessage [7] None]
        @ Msg TextMessage [3, 4] None # [Fail (ConnFailure 1)]) [0, 0, 0]
       = Some (2, None, [3, 4, 0], [Fail (ConnFailure 1)])
   \<and> ws_Read [Msg BinaryMessage [8, 9] None] [0, 0, 0] = None"
  using ws_Read_only_text [where skipped = "[Msg BinaryMessage [8, 9] None, Msg BinaryMessage [7] None]"
      and b = "[3, 4]" and p = "[0, 0, 0]" and conn = "[Fail (ConnFailure 1)]"]
    ws_Read_only_text [where conn = "[Msg BinaryMessage [8, 9] None]" and p = "[0, 0, 0]"]
  by (simp add: BinaryMessage_def TextMessage_def)

section \<open>Properties of the auth-token store\<close>

lemma tokens_pruneLocked:
  "tokens (pruneLocked store now) token = Some info
     \<longleftrightarrow> tokens store token = Some info \<and> \<not> now > expiresAt info"
  by (auto simp add: pruneLocked_def split: option.splits if_splits)

lemma tokens_pruneLocked_None:
  "tokens (pruneLocked store now) token = None
     \<longleftrightarrow> (\<forall>info. tokens store token = Some info \<longrightarrow> now > expiresAt info)"
  by (auto simp add: pruneLocked_def split: option.splits if_splits)

lemma ttl_pruneLocked: "ttl (pruneLocked store now) = ttl store"
  by (simp add: pruneLocked_def)

lemma validate_answer:
  "fst (validate store now token addr) =
     (token \<noteq> [] \<and>
      (\<exists>info. tokens store token = Some info \<and> \<not> now > expiresAt info
         \<and> (ip info = [] \<or> addr = [] \<or> ip info = addr)))"
proof (cases "token = []")
  case True
  then show ?thesis by (simp add: validate_def)
next
  case False
  show ?thesis
  proof (cases "tokens (pruneLocked store now) token")
    case None
    then show ?thesis
      using False tokens_pruneLocked_None [of store now token]
      by (auto simp add: validate_def Let_def)
  next
    case (Some info)
    then have "tokens store token = Some info" "\<not> now > expiresAt info"
      using tokens_pruneLocked [of store now token info] by simp_all
    then show ?thesis
      using False Some by (auto simp add: validate_def Let_def)
  qed
qed

lemma validate_store_nonempty:
  "token \<noteq> [] \<Longrightarrow>
   tokens (snd (validate store now token addr)) = tokens (pruneLocked store now)"
proof -
  assume ne: "token \<noteq> []"
  show ?thesis
  proof (cases "tokens (pruneLocked store now) token")
    case None
    then show ?thesis using ne by (simp add: validate_def)
  next
    case (Some info)
    then have "\<not> now > expiresAt info"
      using tokens_pruneLocked [of store now token info] by simp
    then show ?thesis using ne Some by (simp add: validate_def Let_def)
  qed
qed

lemma issue_loop_result:
  "\<exists>d \<in> set draws. m d = None \<Longrightarrow>
   \<exists>token rest. issue_loop m info draws = Some (token, m(token \<mapsto> info), rest)
      \<and> m token = None \<and> token \<in> set draws"
proof (induction draws)
  case Nil
  then show ?case by simp
next
  case (Cons d draws)
  show ?case
  proof (cases "m d")
    case None
    then have "issue_loop m info (d # draws) = Some (d, m(d \<mapsto> info), draws)
        \<and> m d = None \<and> d \<in> set (d # draws)"
      by simp
    then show ?thesis by blast
  next
    case (Some a)
    then have "\<exists>d \<in> set draws. m d = None" using Cons.prems by auto
    then show ?thesis using Cons.IH Some by auto
  qed
qed

lemma issue_loop_None: "(issue_loop m info draws = None) = (\<forall>d \<in> set draws. m d \<noteq> None)"
  by (induction draws) auto

lemma validate_expired:
  assumes "tokens store token = Some info0" and "now > expiresAt info0"
  shows "\<not> fst (validate store now token addr)"
    and "token \<noteq> [] \<Longrightarrow> tokens (snd (validate store now token addr)) token = None"
proof -
  show "\<not> fst (validate store now token addr)"
    using assms by (simp add: validate_answer)
  show "tokens (snd (validate store now token addr)) token = None" if "token \<noteq> []"
    using that assms by (simp add: validate_store_nonempty tokens_pruneLocked_None)
qed

lemma issue_store:
  assumes "issue store now draws addr = Some (t, store', rest)"
  shows "tokens store' = (tokens (pruneLocked store now))(t \<mapsto> \<lparr>expiresAt = now + ttl store, ip = addr\<rparr>)"
proof -
  let ?m = "tokens (pruneLocked store now)"
  let ?info = "\<lparr>expiresAt = now + ttl store, ip = addr\<rparr>"
  have "issue_loop ?m ?info draws \<noteq> None"
    using assms by (auto simp add: issue_def Let_def ttl_pruneLocked split: option.splits)
  then have "\<exists>d \<in> set draws. ?m d = None"
    by (simp add: issue_loop_None)
  then obtain token r where "issue_loop ?m ?info draws = Some (token, ?m(token \<mapsto> ?info), r)"
    using issue_loop_result [of draws ?m ?info] by blast
  then show ?thesis
    using assms by (auto simp add: issue_def Let_def ttl_pruneLocked)
qed

text \<open>
  Claim C3, as amended (what \<open>validate\<close> answers). \<open>authTokenStore.validate\<close> returns true
  exactly when the token is not empty, is a key of the store, its expiry time has not passed,
  and the stored IP equals the caller's IP or one of the two is empty: the comparison is made
  only between two non-empty addresses. With basic auth disabled, \<open>Server.validateAuthToken\<close>
  returns true for every token and IP and leaves the server as it is.
\<close>

theorem validate_true_iff:
  "fst (validate store now token addr) =
     (token \<noteq> [] \<and>
      (\<exists>info. tokens store token = Some info \<and> \<not> now > expiresAt info
         \<and> (ip info = [] \<or> addr = [] \<or> ip info = addr)))
   \<and> (\<not> EnableBasicAuth (options server) \<longrightarrow>
        validateAuthToken server now token addr = (True, server))"
  by (simp add: validate_answer validateAuthToken_def)

theorem validate_true_iff_witness:
  "fst (validate (fst (snd (the (issue (newAuthTokenStore authTokenTTL) 0 [''aaaaaaaaaaaaaaaaaaaaaaaaaaaaaaaa''] ''10.0.0.1'')))) 1 ''aaaaaaaaaaaaaaaaaaaaaaaaaaaaaaaa'' ''10.0.0.1'') \<and> \<not> fst (validate (fst (snd (the (issue (newAuthTokenStore authTokenTTL) 0 [''aaaaaaaaaaaaaaaaaaaaaaaaaaaaaaaa''] ''10.0.0.1'')))) 1 ''aaaaaaaaaaaaaaaaaaaaaaaaaaaaaaaa'' ''10.0.0.9'')
   \<and> \<not> fst (validate (fst (snd (the (issue (newAuthTokenStore authTokenTTL) 0 [''aaaaaaaaaaaaaaaaaaaaaaaaaaaaaaaa''] ''10.0.0.1'')))) (2 * authTokenTTL) ''aaaaaaaaaaaaaaaaaaaaaaaaaaaaaaaa'' ''10.0.0.1'')
   \<and> \<not> EnableBasicAuth \<lparr>Address = ''0.0.0.0'', Port = ''8080'', EnableBasicAuth = False, AuthIPBinding = True, WSOrigin = ''''\<rparr>
   \<and> fst (validateAuthToken \<lparr>options = \<lparr>Address = ''0.0.0.0'', Port = ''8080'', EnableBasicAuth = False, AuthIPBinding = True, WSOrigin = ''''\<rparr>, authTokens = None\<rparr> 1 ''x'' ''10.0.0.9'')"
  using validate_true_iff [where store = "(fst (snd (the (issue (newAuthTokenStore authTokenTTL) 0 [''aaaaaaaaaaaaaaaaaaaaaaaaaaaaaaaa''] ''10.0.0.1''))))" and now = 1 and token = "''aaaaaaaaaaaaaaaaaaaaaaaaaaaaaaaa''" and addr = "''10.0.0.1''"
      and server = "\<lparr>options = \<lparr>Address = ''0.0.0.0'', Port = ''8080'', EnableBasicAuth = False, AuthIPBinding = True, WSOrigin = ''''\<rparr>, authTokens = None\<rparr>"]
    validate_true_iff [where server = "\<lparr>options = \<lparr>Address = ''0.0.0.0'', Port = ''8080'', EnableBasicAuth = False, AuthIPBinding = True, WSOrigin = ''''\<rparr>, authTokens = None\<rparr>"
      and now = 1 and token = "''x''" and addr = "''10.0.0.9''"]
  by (simp add: validate_def issue_def newAuthTokenStore_def pruneLocked_def authTokenTTL_def)

text \<open>
  The claim as stated fails: with IP binding enabled, a token issued to 10.0.0.1 is accepted
  from a caller whose IP is the empty string, although the stored IP does not match it.
\<close>

theorem validate_true_iff_counterexample:
  "fst (validate (fst (snd (the (issue (newAuthTokenStore authTokenTTL) 0 [''aaaaaaaaaaaaaaaaaaaaaaaaaaaaaaaa''] ''10.0.0.1'')))) 1 ''aaaaaaaaaaaaaaaaaaaaaaaaaaaaaaaa'' [])
   \<and> fst (validateAuthToken
      \<lparr>options = \<lparr>Address = ''0.0.0.0'', Port = ''8080'', EnableBasicAuth = True, AuthIPBinding = True, WSOrigin = ''''\<rparr>,
       authTokens = Some (fst (snd (the (issue (newAuthTokenStore authTokenTTL) 0 [''aaaaaaaaaaaaaaaaaaaaaaaaaaaaaaaa''] ''10.0.0.1''))))\<rparr>
      1 ''aaaaaaaaaaaaaaaaaaaaaaaaaaaaaaaa'' '''')
   \<and> ip (the (tokens (fst (snd (the (issue (newAuthTokenStore authTokenTTL) 0 [''aaaaaaaaaaaaaaaaaaaaaaaaaaaaaaaa''] ''10.0.0.1'')))) ''aaaaaaaaaaaaaaaaaaaaaaaaaaaaaaaa'')) = ''10.0.0.1'' \<and> ''10.0.0.1'' \<noteq> ''''
   \<and> expiresAt (the (tokens (fst (snd (the (issue (newAuthTokenStore authTokenTTL) 0 [''aaaaaaaaaaaaaaaaaaaaaaaaaaaaaaaa''] ''10.0.0.1'')))) ''aaaaaaaaaaaaaaaaaaaaaaaaaaaaaaaa'')) = authTokenTTL \<and> 1 \<le> authTokenTTL"
  by (simp add: validateAuthToken_def validate_def issue_def newAuthTokenStore_def
      pruneLocked_def authTokenTTL_def)

text \<open>
  Claim C7 (fresh tokens). When the draws are results of \<open>Generate(authTokenLength)\<close> and one
  of them is not a key of the pruned store, \<open>authTokenStore.issue\<close> returns: its token has 32
  characters and was not a key of the store, and the new store is the pruned store with this one
  entry added, every other entry as it was. Tokens are the keys of a map, so no two entries share
  one.
\<close>

theorem issue_fresh_token:
  assumes "\<forall>d \<in> set draws. Generate_returns authTokenLength d"
    and "\<exists>d \<in> set draws. tokens (pruneLocked store now) d = None"
  shows "\<exists>token store' rest.
           issue store now draws addr = Some (token, store', rest)
         \<and> length token = 32
         \<and> tokens (pruneLocked store now) token = None
         \<and> tokens store' = (tokens (pruneLocked store now))
              (token \<mapsto> \<lparr>expiresAt = now + ttl store, ip = addr\<rparr>)"
proof -
  let ?m = "tokens (pruneLocked store now)"
  let ?info = "\<lparr>expiresAt = now + ttl store, ip = addr\<rparr>"
  obtain token rest where r: "issue_loop ?m ?info draws = Some (token, ?m(token \<mapsto> ?info), rest)"
    and f: "?m token = None" and d: "token \<in> set draws"
    using issue_loop_result [OF assms(2), of ?info] by blast
  have "length token = 32"
    using assms(1) d by (auto simp add: Generate_returns_def authTokenLength_def)
  moreover have "issue store now draws addr
      = Some (token, (pruneLocked store now)\<lparr>tokens := ?m(token \<mapsto> ?info)\<rparr>, rest)"
    using r by (simp add: issue_def Let_def ttl_pruneLocked)
  ultimately show ?thesis using f by simp
qed


theorem issue_fresh_token_witness:
  "Generate_returns authTokenLength ''aaaaaaaaaaaaaaaaaaaaaaaaaaaaaaaa''
   \<and> Generate_returns authTokenLength ''bbbbbbbbbbbbbbbbbbbbbbbbbbbbbbbb''
   \<and> (\<exists>d \<in> set [''aaaaaaaaaaaaaaaaaaaaaaaaaaaaaaaa'', ''bbbbbbbbbbbbbbbbbbbbbbbbbbbbbbbb'']. tokens (pruneLocked (fst (snd (the (issue (newAuthTokenStore authTokenTTL) 0 [''aaaaaaaaaaaaaaaaaaaaaaaaaaaaaaaa''] ''10.0.0.1'')))) 1) d = None)
   \<and> map_option fst (issue (fst (snd (the (issue (newAuthTokenStore authTokenTTL) 0 [''aaaaaaaaaaaaaaaaaaaaaaaaaaaaaaaa''] ''10.0.0.1'')))) 1 [''aaaaaaaaaaaaaaaaaaaaaaaaaaaaaaaa'', ''bbbbbbbbbbbbbbbbbbbbbbbbbbbbbbbb''] ''10.0.0.2'') = Some ''bbbbbbbbbbbbbbbbbbbbbbbbbbbbbbbb''"
  using issue_fresh_token [where draws = "[''aaaaaaaaaaaaaaaaaaaaaaaaaaaaaaaa'', ''bbbbbbbbbbbbbbbbbbbbbbbbbbbbbbbb'']" and store = "(fst (snd (the (issue (newAuthTokenStore authTokenTTL) 0 [''aaaaaaaaaaaaaaaaaaaaaaaaaaaaaaaa''] ''10.0.0.1''))))" and now = 1 and addr = "''10.0.0.2''"]
  by (simp add: Generate_returns_def authTokenLength_def issue_def newAuthTokenStore_def
      pruneLocked_def authTokenTTL_def)

text \<open>
  Claim C8, as amended (no expired entry after an access). After \<open>validate\<close> with a non-empty
  token, and after \<open>issue\<close> on a store whose time to live is not negative, no entry of the map
  has an expiry time before \<open>now\<close>. \<open>validate\<close> never returns true for a token whose entry
  has expired, and for a non-empty token that entry is gone afterwards.
\<close>

theorem no_expired_entry_after_access:
  "(token \<noteq> [] \<longrightarrow>
      (\<forall>k info. tokens (snd (validate store now token addr)) k = Some info
         \<longrightarrow> \<not> now > expiresAt info))
   \<and> (0 \<le> ttl store \<and> issue store now draws addr = Some (t, store', rest) \<longrightarrow>
      (\<forall>k info. tokens store' k = Some info \<longrightarrow> \<not> now > expiresAt info))
   \<and> (tokens store token = Some info0 \<and> now > expiresAt info0 \<longrightarrow>
      \<not> fst (validate store now token addr)
      \<and> (token \<noteq> [] \<longrightarrow> tokens (snd (validate store now token addr)) token = None))"
proof (intro conjI impI allI)
  fix k info
  assume "token \<noteq> []" and "tokens (snd (validate store now token addr)) k = Some info"
  then show "\<not> now > expiresAt info"
    by (simp add: validate_store_nonempty tokens_pruneLocked)
next
  fix k info
  assume a: "0 \<le> ttl store \<and> issue store now draws addr = Some (t, store', rest)"
    and b: "tokens store' k = Some info"
  have m: "tokens store' = (tokens (pruneLocked store now))(t \<mapsto> \<lparr>expiresAt = now + ttl store, ip = addr\<rparr>)"
    using a issue_store by blast
  show "\<not> now > expiresAt info"
  proof (cases "k = t")
    case True
    then show ?thesis using a b m by auto
  next
    case False
    then show ?thesis using b m by (simp add: tokens_pruneLocked)
  qed
next
  assume "tokens store token = Some info0 \<and> now > expiresAt info0"
  then show "\<not> fst (validate store now token addr)"
    using validate_expired(1) by blast
next
  assume "tokens store token = Some info0 \<and> now > expiresAt info0" and "token \<noteq> []"
  then show "tokens (snd (validate store now token addr)) token = None"
    using validate_expired(2) by blast
qed

theorem no_expired_entry_after_access_witness:
  "''aaaaaaaaaaaaaaaaaaaaaaaaaaaaaaaa'' \<noteq> [] \<and> 0 \<le> ttl (fst (snd (the (issue (newAuthTokenStore authTokenTTL) 0 [''aaaaaaaaaaaaaaaaaaaaaaaaaaaaaaaa''] ''10.0.0.1''))))
   \<and> tokens (fst (snd (the (issue (newAuthTokenStore authTokenTTL) 0 [''aaaaaaaaaaaaaaaaaaaaaaaaaaaaaaaa''] ''10.0.0.1'')))) ''aaaaaaaaaaaaaaaaaaaaaaaaaaaaaaaa'' = Some \<lparr>expiresAt = authTokenTTL, ip = ''10.0.0.1''\<rparr>
   \<and> 2 * authTokenTTL > authTokenTTL
   \<and> \<not> fst (validate (fst (snd (the (issue (newAuthTokenStore authTokenTTL) 0 [''aaaaaaaaaaaaaaaaaaaaaaaaaaaaaaaa''] ''10.0.0.1'')))) (2 * authTokenTTL) ''aaaaaaaaaaaaaaaaaaaaaaaaaaaaaaaa'' ''10.0.0.1'')
   \<and> tokens (snd (validate (fst (snd (the (issue (newAuthTokenStore authTokenTTL) 0 [''aaaaaaaaaaaaaaaaaaaaaaaaaaaaaaaa''] ''10.0.0.1'')))) (2 * authTokenTTL) ''aaaaaaaaaaaaaaaaaaaaaaaaaaaaaaaa'' ''10.0.0.1'')) ''aaaaaaaaaaaaaaaaaaaaaaaaaaaaaaaa'' = None
   \<and> map_option fst (issue (fst (snd (the (issue (newAuthTokenStore authTokenTTL) 0 [''aaaaaaaaaaaaaaaaaaaaaaaaaaaaaaaa''] ''10.0.0.1'')))) (2 * authTokenTTL) [''aaaaaaaaaaaaaaaaaaaaaaaaaaaaaaaa''] ''10.0.0.2'') = Some ''aaaaaaaaaaaaaaaaaaaaaaaaaaaaaaaa''
   \<and> tokens (fst (snd (the (issue (fst (snd (the (issue (newAuthTokenStore authTokenTTL) 0 [''aaaaaaaaaaaaaaaaaaaaaaaaaaaaaaaa''] ''10.0.0.1'')))) (2 * authTokenTTL) [''aaaaaaaaaaaaaaaaaaaaaaaaaaaaaaaa''] ''10.0.0.2'')))) ''aaaaaaaaaaaaaaaaaaaaaaaaaaaaaaaa''
        = Some \<lparr>expiresAt = 3 * authTokenTTL, ip = ''10.0.0.2''\<rparr>"
  using no_expired_entry_after_access [where store = "(fst (snd (the (issue (newAuthTokenStore authTokenTTL) 0 [''aaaaaaaaaaaaaaaaaaaaaaaaaaaaaaaa''] ''10.0.0.1''))))" and now = "2 * authTokenTTL"
      and token = "''aaaaaaaaaaaaaaaaaaaaaaaaaaaaaaaa''" and addr = "''10.0.0.1''"
      and ?info0.0 = "\<lparr>expiresAt = authTokenTTL, ip = ''10.0.0.1''\<rparr>"]
    no_expired_entry_after_access [where store = "(fst (snd (the (issue (newAuthTokenStore authTokenTTL) 0 [''aaaaaaaaaaaaaaaaaaaaaaaaaaaaaaaa''] ''10.0.0.1''))))" and now = "2 * authTokenTTL"
      and draws = "[''aaaaaaaaaaaaaaaaaaaaaaaaaaaaaaaa'']" and addr = "''10.0.0.2''" and t = "''aaaaaaaaaaaaaaaaaaaaaaaaaaaaaaaa''"
      and store' = "fst (snd (the (issue (fst (snd (the (issue (newAuthTokenStore authTokenTTL) 0 [''aaaaaaaaaaaaaaaaaaaaaaaaaaaaaaaa''] ''10.0.0.1'')))) (2 * authTokenTTL) [''aaaaaaaaaaaaaaaaaaaaaaaaaaaaaaaa''] ''10.0.0.2'')))"
      and rest = "[]"]
  by (simp add: validate_def issue_def newAuthTokenStore_def pruneLocked_def authTokenTTL_def)

text \<open>
  The claim as stated fails: \<open>validate\<close> with the empty token returns before it prunes, so an
  expired entry stays in the map; and \<open>issue\<close> on a store with a negative time to live adds an
  entry that has already expired.
\<close>

theorem no_expired_entry_counterexample:
  "tokens (snd (validate (fst (snd (the (issue (newAuthTokenStore authTokenTTL) 0 [''aaaaaaaaaaaaaaaaaaaaaaaaaaaaaaaa''] ''10.0.0.1'')))) (2 * authTokenTTL) '''' ''10.0.0.1'')) ''aaaaaaaaaaaaaaaaaaaaaaaaaaaaaaaa''
     = Some \<lparr>expiresAt = authTokenTTL, ip = ''10.0.0.1''\<rparr>
   \<and> 2 * authTokenTTL > authTokenTTL
   \<and> tokens (fst (snd (the (issue (newAuthTokenStore (- 1)) 0 [''aaaaaaaaaaaaaaaaaaaaaaaaaaaaaaaa''] ''10.0.0.1'')))) ''aaaaaaaaaaaaaaaaaaaaaaaaaaaaaaaa''
     = Some \<lparr>expiresAt = - 1, ip = ''10.0.0.1''\<rparr> \<and> (0 :: int) > - 1"
  by (simp add: validate_def issue_def newAuthTokenStore_def pruneLocked_def authTokenTTL_def)

section \<open>Properties of the request handling\<close>

lemma Split_not_Nil: "Split s sep \<noteq> []"
  by (induction s) auto

lemma hd_Split: "hd (Split s sep) = takeWhile (\<lambda>c. c \<noteq> sep) s"
  by (induction s) auto

lemma TrimSpace_Nil: "TrimSpace [] = []"
  by (simp add: TrimSpace_def leadingSpace_def trailingSpace_def)

lemma SplitHostPort_Nil: "SplitHostPort [] = None"
  by (simp add: SplitHostPort_def LastIndexByte_def)

lemma LastIndexByte_append:
  assumes "c \<notin> set t"
  shows "LastIndexByte (s @ c # t) c = Some (length s)"
proof -
  have "takeWhile (\<lambda>x. x \<noteq> c) (rev t @ c # rev s) = rev t"
    using assms by (induction t rule: rev_induct) auto
  then show ?thesis by (simp add: LastIndexByte_def)
qed

lemma SplitHostPort_host_port:
  assumes "CHR '':'' \<notin> set host" "CHR ''['' \<notin> set host" "CHR '']'' \<notin> set host"
    and "CHR '':'' \<notin> set port" "CHR ''['' \<notin> set port" "CHR '']'' \<notin> set port"
  shows "SplitHostPort (host @ CHR '':'' # port) = Some (host, port)"
proof -
  have i: "LastIndexByte (host @ CHR '':'' # port) CHR '':'' = Some (length host)"
    using assms(4) by (rule LastIndexByte_append)
  have h: "(host @ CHR '':'' # port) ! 0 \<noteq> CHR ''[''"
    using assms(2) by (cases host) auto
  show ?thesis
    using assms h by (simp add: SplitHostPort_def i)
qed

lemma ipFromAddr_eq:
  "ipFromAddr addr =
     (case SplitHostPort addr of Some (host, port) \<Rightarrow> host | None \<Rightarrow> TrimSpace addr)"
  by (cases "addr = []") (simp_all add: ipFromAddr_def SplitHostPort_Nil TrimSpace_Nil)

text \<open>
  Claim C9 (client IP). When the \<open>X-Forwarded-For\<close> header is not empty,
  \<open>clientIPFromRequest\<close> returns its first comma-separated entry, the part before the first
  comma, with the white space around it trimmed. Otherwise it returns the host part of the
  remote address: the host that \<open>net.SplitHostPort\<close> finds, and the trimmed address when that
  finds no port. For a remote address \<open>host:port\<close> (no colon or bracket in either part) this is
  \<open>host\<close>.
\<close>

theorem clientIPFromRequest_source:
  "(Header_Get (Header r) ''X-Forwarded-For'' \<noteq> [] \<longrightarrow>
      clientIPFromRequest (Some r)
        = TrimSpace (takeWhile (\<lambda>c. c \<noteq> CHR '','') (Header_Get (Header r) ''X-Forwarded-For'')))
   \<and> (Header_Get (Header r) ''X-Forwarded-For'' = [] \<longrightarrow>
      clientIPFromRequest (Some r)
        = (case SplitHostPort (RemoteAddr r) of
             Some (host, port) \<Rightarrow> host
           | None \<Rightarrow> TrimSpace (RemoteAddr r)))
   \<and> (Header_Get (Header r) ''X-Forwarded-For'' = [] \<and> RemoteAddr r = h @ CHR '':'' # p
        \<and> set h \<inter> {CHR '':'', CHR ''['', CHR '']''} = {}
        \<and> set p \<inter> {CHR '':'', CHR ''['', CHR '']''} = {} \<longrightarrow>
      clientIPFromRequest (Some r) = h)"
proof (intro conjI impI)
  assume "Header_Get (Header r) ''X-Forwarded-For'' \<noteq> []"
  then show "clientIPFromRequest (Some r)
      = TrimSpace (takeWhile (\<lambda>c. c \<noteq> CHR '','') (Header_Get (Header r) ''X-Forwarded-For''))"
    by (simp add: clientIPFromRequest_def hd_Split)
next
  assume "Header_Get (Header r) ''X-Forwarded-For'' = []"
  then show "clientIPFromRequest (Some r)
      = (case SplitHostPort (RemoteAddr r) of
           Some (host, port) \<Rightarrow> host
         | None \<Rightarrow> TrimSpace (RemoteAddr r))"
    by (simp add: clientIPFromRequest_def ipFromAddr_eq)
next
  assume a: "Header_Get (Header r) ''X-Forwarded-For'' = [] \<and> RemoteAddr r = h @ CHR '':'' # p
        \<and> set h \<inter> {CHR '':'', CHR ''['', CHR '']''} = {}
        \<and> set p \<inter> {CHR '':'', CHR ''['', CHR '']''} = {}"
  then have "SplitHostPort (h @ CHR '':'' # p) = Some (h, p)"
    by (intro SplitHostPort_host_port) auto
  then show "clientIPFromRequest (Some r) = h"
    using a by (simp add: clientIPFromRequest_def ipFromAddr_eq)
qed

theorem clientIPFromRequest_source_witness:
  "Header_Get [''X-Forwarded-For'' \<mapsto> ['' 10.0.0.1 , 10.0.0.2'']] ''X-Forwarded-For'' \<noteq> []
   \<and> clientIPFromRequest (Some \<lparr>Header = [''X-Forwarded-For'' \<mapsto> ['' 10.0.0.1 , 10.0.0.2'']],
        Host = ''example.com'', RemoteAddr = ''192.168.0.7:4000'', TLS = False\<rparr>) = ''10.0.0.1''
   \<and> Header_Get Map.empty ''X-Forwarded-For'' = []
   \<and> clientIPFromRequest (Some \<lparr>Header = Map.empty,
        Host = ''example.com'', RemoteAddr = ''192.168.0.7:4000'', TLS = False\<rparr>) = ''192.168.0.7''
   \<and> clientIPFromRequest (Some \<lparr>Header = Map.empty,
        Host = ''example.com'', RemoteAddr = ''[::1]:4000'', TLS = False\<rparr>) = ''::1''
   \<and> clientIPFromRequest (Some \<lparr>Header = Map.empty,
        Host = ''example.com'', RemoteAddr = '' 192.168.0.7'', TLS = False\<rparr>) = ''192.168.0.7''"
proof -
  let ?r1 = "\<lparr>Header = [''X-Forwarded-For'' \<mapsto> ['' 10.0.0.1 , 10.0.0.2'']],
        Host = ''example.com'', RemoteAddr = ''192.168.0.7:4000'', TLS = False\<rparr>"
  let ?r2 = "\<lparr>Header = Map.empty,
        Host = ''example.com'', RemoteAddr = ''192.168.0.7:4000'', TLS = False\<rparr>"
  have h1: "Header_Get (Header ?r1) ''X-Forwarded-For'' \<noteq> []"
    by (simp add: Header_Get_def)
  have h2: "Header_Get (Header ?r2) ''X-Forwarded-For'' = []
      \<and> RemoteAddr ?r2 = ''192.168.0.7'' @ CHR '':'' # ''4000''
      \<and> set ''192.168.0.7'' \<inter> {CHR '':'', CHR ''['', CHR '']''} = {}
      \<and> set ''4000'' \<inter> {CHR '':'', CHR ''['', CHR '']''} = {}"
    by (simp add: Header_Get_def)
  have c1: "clientIPFromRequest (Some ?r1)
      = TrimSpace (takeWhile (\<lambda>c. c \<noteq> CHR '','') (Header_Get (Header ?r1) ''X-Forwarded-For''))"
    using clientIPFromRequest_source [where r = ?r1 and h = "''192.168.0.7''" and p = "''4000''",
        THEN conjunct1, THEN mp, OF h1] .
  have c2: "clientIPFromRequest (Some ?r2) = ''192.168.0.7''"
    using clientIPFromRequest_source [where r = ?r2 and h = "''192.168.0.7''" and p = "''4000''",
        THEN conjunct2, THEN conjunct2, THEN mp, OF h2] .
  have e1: "TrimSpace (takeWhile (\<lambda>c. c \<noteq> CHR '','') (Header_Get (Header ?r1) ''X-Forwarded-For''))
      = ''10.0.0.1''"
    by (simp add: Header_Get_def TrimSpace_def leadingSpace_def trailingSpace_def asciiSpace_def
        unicodeSpaces_def)
  have b: "clientIPFromRequest (Some ?r1) = ''10.0.0.1''"
    using c1 e1 by (rule trans)
  have e2: "clientIPFromRequest (Some \<lparr>Header = Map.empty,
        Host = ''example.com'', RemoteAddr = ''[::1]:4000'', TLS = False\<rparr>) = ''::1''
     \<and> clientIPFromRequest (Some \<lparr>Header = Map.empty,
        Host = ''example.com'', RemoteAddr = '' 192.168.0.7'', TLS = False\<rparr>) = ''192.168.0.7''"
    by (simp add: Header_Get_def clientIPFromRequest_def ipFromAddr_def SplitHostPort_def
        LastIndexByte_def IndexByte_def TrimSpace_def leadingSpace_def trailingSpace_def
        asciiSpace_def unicodeSpaces_def)
  show ?thesis
    using h1 h2 b c2 e2 by simp
qed

text \<open>
  Claim C10 (no Origin header). When the request has no \<open>Origin\<close> header, or an empty one,
  \<open>sameOrigin\<close> returns true, whatever the parser, the case folding and the rest of the
  request.
\<close>

theorem sameOrigin_without_Origin:
  "(Header_Get (Header r) ''Origin'' = [] \<longrightarrow> sameOrigin parse equalFold r)
   \<and> (Header r ''Origin'' = None \<longrightarrow> sameOrigin parse equalFold r)"
  by (simp add: sameOrigin_def Header_Get_def)

theorem sameOrigin_without_Origin_witness:
  "Header_Get [''Origin'' \<mapsto> ['''']] ''Origin'' = []
   \<and> sameOrigin (\<lambda>s. None) (=) \<lparr>Header = [''Origin'' \<mapsto> ['''']], Host = ''example.com'',
        RemoteAddr = ''192.168.0.7:4000'', TLS = True\<rparr>
   \<and> sameOrigin (\<lambda>s. None) (=) \<lparr>Header = Map.empty, Host = ''example.com'',
        RemoteAddr = ''192.168.0.7:4000'', TLS = True\<rparr>"
  using sameOrigin_without_Origin [where r = "\<lparr>Header = [''Origin'' \<mapsto> ['''']], Host = ''example.com'',
        RemoteAddr = ''192.168.0.7:4000'', TLS = True\<rparr>" and parse = "\<lambda>s. None" and equalFold = "(=)"]
    sameOrigin_without_Origin [where r = "\<lparr>Header = Map.empty, Host = ''example.com'',
        RemoteAddr = ''192.168.0.7:4000'', TLS = True\<rparr>" and parse = "\<lambda>s. None" and equalFold = "(=)"]
  by (simp add: Header_Get_def)

lemma sameOrigin_iff:
  "sameOrigin parse equalFold r =
     (Header_Get (Header r) ''Origin'' = [] \<or>
      (\<exists>u. parse (Header_Get (Header r) ''Origin'') = Some u
         \<and> equalFold (URL_Hostname u)
              (fst (case SplitHostPort (Host r) of Some hp \<Rightarrow> hp | None \<Rightarrow> (Host r, [])))
         \<and> (URL_Port u = []
              \<or> snd (case SplitHostPort (Host r) of Some hp \<Rightarrow> hp | None \<Rightarrow> (Host r, [])) = []
              \<or> URL_Port u
                  = snd (case SplitHostPort (Host r) of Some hp \<Rightarrow> hp | None \<Rightarrow> (Host r, [])))))"
proof (cases "Header_Get (Header r) ''Origin'' = []")
  case True
  then show ?thesis by (simp add: sameOrigin_def)
next
  case False
  show ?thesis
  proof (cases "parse (Header_Get (Header r) ''Origin'')")
    case None
    then show ?thesis using False by (simp add: sameOrigin_def)
  next
    case (Some u)
    show ?thesis
    proof (cases "SplitHostPort (Host r)")
      case None
      then show ?thesis using False Some by (auto simp add: sameOrigin_def Let_def)
    next
      case (Some hp)
      then show ?thesis using False \<open>parse (Header_Get (Header r) ''Origin'') = Some u\<close>
        by (cases hp) (auto simp add: sameOrigin_def Let_def)
    qed
  qed
qed

lemma sameOrigin_Scheme:
  "sameOrigin (\<lambda>s. map_option (\<lambda>u. u\<lparr>Scheme := sch\<rparr>) (parse s)) equalFold r
     = sameOrigin parse equalFold r"
proof (cases "parse (Header_Get (Header r) ''Origin'')")
  case None
  then show ?thesis by (simp add: sameOrigin_def Let_def)
next
  case (Some u)
  then show ?thesis
    by (simp add: sameOrigin_def Let_def URL_Hostname_def URL_Port_def)
qed

lemma sameOrigin_TLS:
  "sameOrigin parse equalFold (r\<lparr>TLS := tls\<rparr>) = sameOrigin parse equalFold r"
  by (simp add: sameOrigin_def Let_def cong: option.case_cong if_cong)

lemma digits_no_colon:
  assumes "list_all (\<lambda>b. (48 :: nat) \<le> of_char b \<and> of_char b \<le> (57 :: nat)) p"
  shows "CHR '':'' \<notin> set p"
proof
  assume "CHR '':'' \<in> set p"
  then have "(of_char CHR '':'' :: nat) \<le> 57"
    using assms by (auto simp add: list_all_iff)
  then show False by simp
qed

lemma url_splitHostPort_host_port:
  assumes "list_all (\<lambda>b. (48 :: nat) \<le> of_char b \<and> of_char b \<le> (57 :: nat)) p"
    and "CHR ''['' \<notin> set h"
  shows "url_splitHostPort (h @ CHR '':'' # p) = (h, p)"
proof -
  have i: "LastIndexByte (h @ CHR '':'' # p) CHR '':'' = Some (length h)"
    using digits_no_colon [OF assms(1)] by (rule LastIndexByte_append)
  have v: "validOptionalPort (CHR '':'' # p)"
    using assms(1) by (simp add: validOptionalPort_def)
  have b: "\<not> (h \<noteq> [] \<and> hd h = CHR ''['' \<and> last h = CHR '']'')"
    using assms(2) by (cases h) auto
  show ?thesis
    using v b by (auto simp add: url_splitHostPort_def i)
qed

lemma sameOrigin_host_port:
  assumes "Header_Get (Header r) ''Origin'' \<noteq> []"
    and "parse (Header_Get (Header r) ''Origin'') = Some u"
    and "URLHost u = oh @ CHR '':'' # op" and "Host r = rh @ CHR '':'' # rp"
    and "list_all (\<lambda>b. (48 :: nat) \<le> of_char b \<and> of_char b \<le> (57 :: nat)) op"
    and "CHR ''['' \<notin> set oh"
    and "set rh \<inter> {CHR '':'', CHR ''['', CHR '']''} = {}"
    and "set rp \<inter> {CHR '':'', CHR ''['', CHR '']''} = {}"
  shows "sameOrigin parse equalFold r = (equalFold oh rh \<and> (op = [] \<or> rp = [] \<or> op = rp))"
proof -
  have o: "url_splitHostPort (URLHost u) = (oh, op)"
    using assms(3,5,6) by (simp add: url_splitHostPort_host_port)
  have q: "SplitHostPort (Host r) = Some (rh, rp)"
    using assms(4,7,8) by (simp add: SplitHostPort_host_port)
  show ?thesis
    using assms(1,2) by (auto simp add: sameOrigin_def Let_def URL_Hostname_def URL_Port_def o q)
qed

text \<open>
  Claim C2, as amended (same-origin comparison). \<open>sameOrigin\<close> accepts a request exactly when
  its \<open>Origin\<close> header is empty, or \<open>url.Parse\<close> accepts it and \<open>strings.EqualFold\<close> holds
  between the \<open>Hostname()\<close> of the parsed origin and the host of the request, and the \<open>Port()\<close>
  of the origin equals the port of the request or one of the two ports is empty. The host and
  the port of the request are those that \<open>net.SplitHostPort\<close> finds in \<open>r.Host\<close>; when it
  fails, the host is the whole of \<open>r.Host\<close> and the port is empty. For an origin \<open>oh:op\<close>
  (\<open>op\<close> all digits, no opening bracket in \<open>oh\<close>) and a request host \<open>rh:rp\<close> (no colon or
  bracket in either part) this is: \<open>oh\<close> and \<open>rh\<close> are equal under case folding, and
  \<open>op = rp\<close> unless one of them is empty. The scheme is not compared: the answer is the same
  whatever the scheme of the origin and whether or not the request came over TLS.
\<close>

theorem sameOrigin_host_and_port:
  "sameOrigin parse equalFold r =
     (Header_Get (Header r) ''Origin'' = [] \<or>
      (\<exists>u. parse (Header_Get (Header r) ''Origin'') = Some u
         \<and> equalFold (URL_Hostname u)
              (fst (case SplitHostPort (Host r) of Some hp \<Rightarrow> hp | None \<Rightarrow> (Host r, [])))
         \<and> (URL_Port u = []
              \<or> snd (case SplitHostPort (Host r) of Some hp \<Rightarrow> hp | None \<Rightarrow> (Host r, [])) = []
              \<or> URL_Port u
                  = snd (case SplitHostPort (Host r) of Some hp \<Rightarrow> hp | None \<Rightarrow> (Host r, [])))))
   \<and> (Header_Get (Header r) ''Origin'' \<noteq> []
        \<and> parse (Header_Get (Header r) ''Origin'') = Some v
        \<and> URLHost v = oh @ CHR '':'' # op \<and> Host r = rh @ CHR '':'' # rp
        \<and> list_all (\<lambda>b. (48 :: nat) \<le> of_char b \<and> of_char b \<le> (57 :: nat)) op
        \<and> CHR ''['' \<notin> set oh
        \<and> set rh \<inter> {CHR '':'', CHR ''['', CHR '']''} = {}
        \<and> set rp \<inter> {CHR '':'', CHR ''['', CHR '']''} = {} \<longrightarrow>
      sameOrigin parse equalFold r = (equalFold oh rh \<and> (op = [] \<or> rp = [] \<or> op = rp)))
   \<and> sameOrigin (\<lambda>s. map_option (\<lambda>u. u\<lparr>Scheme := sch\<rparr>) (parse s)) equalFold r
        = sameOrigin parse equalFold r
   \<and> sameOrigin parse equalFold (r\<lparr>TLS := tls\<rparr>) = sameOrigin parse equalFold r"
proof (intro conjI impI)
  show "sameOrigin parse equalFold r =
     (Header_Get (Header r) ''Origin'' = [] \<or>
      (\<exists>u. parse (Header_Get (Header r) ''Origin'') = Some u
         \<and> equalFold (URL_Hostname u)
              (fst (case SplitHostPort (Host r) of Some hp \<Rightarrow> hp | None \<Rightarrow> (Host r, [])))
         \<and> (URL_Port u = []
              \<or> snd (case SplitHostPort (Host r) of Some hp \<Rightarrow> hp | None \<Rightarrow> (Host r, [])) = []
              \<or> URL_Port u
                  = snd (case SplitHostPort (Host r) of Some hp \<Rightarrow> hp | None \<Rightarrow> (Host r, [])))))"
    by (rule sameOrigin_iff)
next
  assume "Header_Get (Header r) ''Origin'' \<noteq> []
        \<and> parse (Header_Get (Header r) ''Origin'') = Some v
        \<and> URLHost v = oh @ CHR '':'' # op \<and> Host r = rh @ CHR '':'' # rp
        \<and> list_all (\<lambda>b. (48 :: nat) \<le> of_char b \<and> of_char b \<le> (57 :: nat)) op
        \<and> CHR ''['' \<notin> set oh
        \<and> set rh \<inter> {CHR '':'', CHR ''['', CHR '']''} = {}
        \<and> set rp \<inter> {CHR '':'', CHR ''['', CHR '']''} = {}"
  then show "sameOrigin parse equalFold r = (equalFold oh rh \<and> (op = [] \<or> rp = [] \<or> op = rp))"
    by (intro sameOrigin_host_port [where u = v]) simp_all
next
  show "sameOrigin (\<lambda>s. map_option (\<lambda>u. u\<lparr>Scheme := sch\<rparr>) (parse s)) equalFold r
      = sameOrigin parse equalFold r"
    by (rule sameOrigin_Scheme)
next
  show "sameOrigin parse equalFold (r\<lparr>TLS := tls\<rparr>) = sameOrigin parse equalFold r"
    by (rule sameOrigin_TLS)
qed

text \<open>
  In the examples that follow, the parser returns what \<open>url.Parse\<close> returns on the origin at
  hand, and equality stands for \<open>strings.EqualFold\<close>, with which it agrees on host names
  written in lower-case ASCII letters, digits and dots.
\<close>

theorem sameOrigin_host_and_port_witness:
  "Header_Get [''Origin'' \<mapsto> [''https://example.com:8443'']] ''Origin'' \<noteq> []
   \<and> list_all (\<lambda>b. (48 :: nat) \<le> of_char b \<and> of_char b \<le> (57 :: nat)) ''8443''
   \<and> CHR ''['' \<notin> set ''example.com''
   \<and> set ''example.com'' \<inter> {CHR '':'', CHR ''['', CHR '']''} = {}
   \<and> set ''8443'' \<inter> {CHR '':'', CHR ''['', CHR '']''} = {}
   \<and> sameOrigin (\<lambda>s. if s = ''https://example.com:8443''
        then Some \<lparr>Scheme = ''https'', URLHost = ''example.com:8443''\<rparr> else None) (=)
      \<lparr>Header = [''Origin'' \<mapsto> [''https://example.com:8443'']], Host = ''example.com:8443'',
        RemoteAddr = ''192.168.0.7:4000'', TLS = True\<rparr>
   \<and> sameOrigin (\<lambda>s. map_option (\<lambda>u. u\<lparr>Scheme := ''http''\<rparr>)
        (if s = ''https://example.com:8443''
         then Some \<lparr>Scheme = ''https'', URLHost = ''example.com:8443''\<rparr> else None)) (=)
      \<lparr>Header = [''Origin'' \<mapsto> [''https://example.com:8443'']], Host = ''example.com:8443'',
        RemoteAddr = ''192.168.0.7:4000'', TLS = True\<rparr>
   \<and> \<not> sameOrigin (\<lambda>s. if s = ''https://example.com:8443''
        then Some \<lparr>Scheme = ''https'', URLHost = ''example.com:8443''\<rparr> else None) (=)
      \<lparr>Header = [''Origin'' \<mapsto> [''https://example.com:8443'']], Host = ''example.com:9000'',
        RemoteAddr = ''192.168.0.7:4000'', TLS = True\<rparr>"
proof -
  let ?P = "\<lambda>s. if s = ''https://example.com:8443''
        then Some \<lparr>Scheme = ''https'', URLHost = ''example.com:8443''\<rparr> else None"
  let ?r = "\<lparr>Header = [''Origin'' \<mapsto> [''https://example.com:8443'']], Host = ''example.com:8443'',
        RemoteAddr = ''192.168.0.7:4000'', TLS = True\<rparr>"
  let ?r' = "\<lparr>Header = [''Origin'' \<mapsto> [''https://example.com:8443'']], Host = ''example.com:9000'',
        RemoteAddr = ''192.168.0.7:4000'', TLS = True\<rparr>"
  have side: "Header_Get [''Origin'' \<mapsto> [''https://example.com:8443'']] ''Origin'' \<noteq> []
      \<and> list_all (\<lambda>b. (48 :: nat) \<le> of_char b \<and> of_char b \<le> (57 :: nat)) ''8443''
      \<and> CHR ''['' \<notin> set ''example.com''
      \<and> set ''example.com'' \<inter> {CHR '':'', CHR ''['', CHR '']''} = {}
      \<and> set ''8443'' \<inter> {CHR '':'', CHR ''['', CHR '']''} = {}"
    by (simp add: Header_Get_def)
  have h: "Header_Get (Header ?r) ''Origin'' \<noteq> []
        \<and> ?P (Header_Get (Header ?r) ''Origin'')
            = Some \<lparr>Scheme = ''https'', URLHost = ''example.com:8443''\<rparr>
        \<and> URLHost \<lparr>Scheme = ''https'', URLHost = ''example.com:8443''\<rparr>
            = ''example.com'' @ CHR '':'' # ''8443''
        \<and> Host ?r = ''example.com'' @ CHR '':'' # ''8443''
        \<and> list_all (\<lambda>b. (48 :: nat) \<le> of_char b \<and> of_char b \<le> (57 :: nat)) ''8443''
        \<and> CHR ''['' \<notin> set ''example.com''
        \<and> set ''example.com'' \<inter> {CHR '':'', CHR ''['', CHR '']''} = {}
        \<and> set ''8443'' \<inter> {CHR '':'', CHR ''['', CHR '']''} = {}"
    by (simp add: Header_Get_def)
  have h': "Header_Get (Header ?r') ''Origin'' \<noteq> []
        \<and> ?P (Header_Get (Header ?r') ''Origin'')
            = Some \<lparr>Scheme = ''https'', URLHost = ''example.com:8443''\<rparr>
        \<and> URLHost \<lparr>Scheme = ''https'', URLHost = ''example.com:8443''\<rparr>
            = ''example.com'' @ CHR '':'' # ''8443''
        \<and> Host ?r' = ''example.com'' @ CHR '':'' # ''9000''
        \<and> list_all (\<lambda>b. (48 :: nat) \<le> of_char b \<and> of_char b \<le> (57 :: nat)) ''8443''
        \<and> CHR ''['' \<notin> set ''example.com''
        \<and> set ''example.com'' \<inter> {CHR '':'', CHR ''['', CHR '']''} = {}
        \<and> set ''9000'' \<inter> {CHR '':'', CHR ''['', CHR '']''} = {}"
    by (simp add: Header_Get_def)
  have c: "sameOrigin ?P (=) ?r
      = (''example.com'' = ''example.com'' \<and> (''8443'' = [] \<or> ''8443'' = [] \<or> ''8443'' = ''8443''))"
    using sameOrigin_host_and_port [where parse = ?P and equalFold = "(=)" and r = ?r
        and v = "\<lparr>Scheme = ''https'', URLHost = ''example.com:8443''\<rparr>"
        and oh = "''example.com''" and op = "''8443''" and rh = "''example.com''" and rp = "''8443''"
        and sch = "''http''" and tls = False,
        THEN conjunct2, THEN conjunct1, THEN mp, OF h] .
  have c': "sameOrigin ?P (=) ?r'
      = (''example.com'' = ''example.com'' \<and> (''8443'' = [] \<or> ''9000'' = [] \<or> ''8443'' = ''9000''))"
    using sameOrigin_host_and_port [where parse = ?P and equalFold = "(=)" and r = ?r'
        and v = "\<lparr>Scheme = ''https'', URLHost = ''example.com:8443''\<rparr>"
        and oh = "''example.com''" and op = "''8443''" and rh = "''example.com''" and rp = "''9000''"
        and sch = "''http''" and tls = False,
        THEN conjunct2, THEN conjunct1, THEN mp, OF h'] .
  have e1: "sameOrigin ?P (=) ?r"
    using c by simp
  have e2: "\<not> sameOrigin ?P (=) ?r'"
    using c' by simp
  have s: "sameOrigin (\<lambda>s. map_option (\<lambda>u. u\<lparr>Scheme := ''http''\<rparr>) (?P s)) (=) ?r
      = sameOrigin ?P (=) ?r"
    using sameOrigin_host_and_port [where parse = ?P and equalFold = "(=)" and r = ?r
        and sch = "''http''" and tls = False,
        THEN conjunct2, THEN conjunct2, THEN conjunct1] .
  have s': "sameOrigin (\<lambda>s. map_option (\<lambda>u. u\<lparr>Scheme := ''http''\<rparr>) (?P s)) (=) ?r"
    using s e1 by (rule iffD2)
  show ?thesis
    using side e1 e2 s' by (intro conjI) (rule conjunct1, assumption | simp)+
qed

text \<open>
  The claim as stated fails: the scheme is not compared. A request to \<open>example.com\<close> is
  accepted with the origin \<open>http://example.com\<close> and with the origin \<open>https://example.com\<close>
  alike, whether it came over TLS or not; one of the two origins has a scheme that is not the
  scheme of the request.
\<close>

theorem sameOrigin_policy_counterexample:
  "sameOrigin (\<lambda>s. if s = ''http://example.com''
        then Some \<lparr>Scheme = ''http'', URLHost = ''example.com''\<rparr> else None) (=)
      \<lparr>Header = [''Origin'' \<mapsto> [''http://example.com'']], Host = ''example.com'',
        RemoteAddr = ''192.168.0.7:4000'', TLS = True\<rparr>
   \<and> sameOrigin (\<lambda>s. if s = ''https://example.com''
        then Some \<lparr>Scheme = ''https'', URLHost = ''example.com''\<rparr> else None) (=)
      \<lparr>Header = [''Origin'' \<mapsto> [''https://example.com'']], Host = ''example.com'',
        RemoteAddr = ''192.168.0.7:4000'', TLS = True\<rparr>"
  by (simp add: sameOrigin_def Header_Get_def URL_Hostname_def URL_Port_def url_splitHostPort_def
      validOptionalPort_def SplitHostPort_def LastIndexByte_def IndexByte_def)

text \<open>
  The WebTransport server. Without an origin pattern (\<open>WSOrigin\<close> empty),
  \<open>NewWebTransportServer\<close> succeeds, keeps no compiled pattern, and the \<open>CheckOrigin\<close> it
  installs returns true for every request; \<open>sameOrigin\<close> is not called there. The comment in
  the source says ``allow all origins''; a test kept with the sources expects a request from
  another origin to be rejected.
\<close>

lemma CheckOrigin_without_pattern:
  assumes "WSOrigin opts = []"
  shows "\<exists>wts. NewWebTransportServer compile opts prefix = Some wts
           \<and> wts_originRegexp wts = None \<and> CheckOrigin (wts_originRegexp wts) r"
  using assms by (simp add: NewWebTransportServer_def CheckOrigin_def)

end
